theory Spec2Isabelle
  imports
    Complex_Main
    "HOL-Library.Word"
    "HOL-Library.Sublist"
    "HOL-Library.Char_ord"
    "HOL-Library.List_Lexorder"
begin

section \<open>Values shared by the endpoints of \<^verbatim>\<open>server/backend_skeleton.py\<close>\<close>

text \<open>
  Decoded JSON, as \<^verbatim>\<open>json.loads\<close> and \<^verbatim>\<open>request.get_json\<close> return it. A Python
  \<^verbatim>\<open>dict\<close> with string keys is a map; \<^verbatim>\<open>None\<close> is \<open>JNull\<close>.
\<close>

datatype json =
    JNull
  | JBool bool
  | JNum real
  | JStr string
  | JArr "json list"
  | JObj "string \<Rightarrow> json option"

type_synonym pydict = "string \<rightharpoonup> json"


text \<open>\<^verbatim>\<open>d.get(k)\<close> and \<^verbatim>\<open>d.get(k, default)\<close>.\<close>

definition dict_get :: "pydict \<Rightarrow> string \<Rightarrow> json" where
  "dict_get d k = (case d k of None \<Rightarrow> JNull | Some v \<Rightarrow> v)"


text \<open>
  The \<^verbatim>\<open>sqlite3\<close> module binds \<^verbatim>\<open>None\<close>, numbers and strings as statement
  parameters and raises on a list or a dict.
\<close>

fun sql_bindable :: "json \<Rightarrow> bool" where
  "sql_bindable (JArr _) = False"
| "sql_bindable (JObj _) = False"
| "sql_bindable _ = True"

text \<open>Exceptions that leave a view function, and what a view function hands to Flask.\<close>

datatype error =
    NotADirectoryError
  | IsADirectoryError
  | FileExistsError
  | IntegrityError
  | BindingError
  | AttributeError
  | TypeError

datatype body = Empty | Json pydict

datatype outcome =
    Return body nat
  | ReturnNone
  | Raise error

type_synonym byte = "8 word"
type_synonym bytes = "byte list"

section \<open>Persistent state\<close>

text \<open>
  \<^verbatim>\<open>UPLOADS_DIR\<close> holds the final files (regular files) and one sub-directory per
  upload session; a session directory holds regular files only.
\<close>

type_synonym directory = "string \<rightharpoonup> bytes"

datatype entry = File bytes | Dir directory

text \<open>One row of the \<^verbatim>\<open>songs\<close> table. The \<^verbatim>\<open>metadata\<close> column holds the text of
  \<^verbatim>\<open>json.dumps\<close> of a dict and is modelled by that dict (\<open>None\<close> is SQL NULL).\<close>

record song =
  song_id :: string
  title :: json
  artist :: json
  filename :: "string option"
  duration :: "real option"
  metadata :: "pydict option"
  song_created_at :: real

text \<open>One row of the \<^verbatim>\<open>jobs\<close> table.\<close>

record job =
  job_id :: string
  file_id :: string
  model :: string
  status :: string
  progress :: real
  message :: string
  created_at :: real

text \<open>A call of \<^verbatim>\<open>background_process(job_id, file_id, model)\<close> handed to a thread
  or to the RQ queue; it runs later, outside the request.\<close>

type_synonym call = "string \<times> string \<times> string"

text \<open>The \<^verbatim>\<open>songs\<close> table is keyed by its primary key; the \<^verbatim>\<open>jobs\<close> table keeps
  its rows in insertion order, which the poller's \<^verbatim>\<open>ORDER BY\<close> reads.\<close>

record server =
  uploads :: "string \<rightharpoonup> entry"
  songs :: "string \<rightharpoonup> song"
  jobs :: "job list"
  threads :: "call list"
  rq :: "call list"

definition init_server :: server where
  "init_server = \<lparr>uploads = Map.empty, songs = Map.empty, jobs = [], threads = [], rq = []\<rparr>"

section \<open>Chunk file names\<close>

definition digit_char :: "nat \<Rightarrow> char" where
  "digit_char d = ''0123456789'' ! d"

text \<open>\<^verbatim>\<open>str(n)\<close> for a natural number.\<close>

fun str_nat :: "nat \<Rightarrow> string" where
  "str_nat n = (if n < 10 then [digit_char n] else str_nat (n div 10) @ [digit_char (n mod 10)])"

declare str_nat.simps [simp del]

definition zfill :: "nat \<Rightarrow> string \<Rightarrow> string" where
  "zfill w s = replicate (w - length s) (CHR ''0'') @ s"

text \<open>The format \<^verbatim>\<open>{idx:06d}\<close>: zero padding to width six, the sign counted
  in the width.\<close>

definition format_06d :: "int \<Rightarrow> string" where
  "format_06d i =
     (if i < 0 then CHR ''-'' # zfill 5 (str_nat (nat (- i))) else zfill 6 (str_nat (nat i)))"

definition chunk_name :: "int \<Rightarrow> string" where
  "chunk_name idx = ''chunk-'' @ format_06d idx @ ''.part''"

text \<open>A fixed-width decimal numeral, the reading of \<open>format_06d\<close> below \<open>10 ^ 6\<close>.\<close>

primrec fixdec :: "nat \<Rightarrow> nat \<Rightarrow> string" where
  "fixdec 0 n = []"
| "fixdec (Suc k) n = fixdec k (n div 10) @ [digit_char (n mod 10)]"

section \<open>Resumable uploads\<close>

text \<open>\<^verbatim>\<open>create_upload\<close>: a fresh directory with \<^verbatim>\<open>meta.json\<close>; \<open>meta_text\<close> is the
  text \<^verbatim>\<open>json.dumps(metadata)\<close>. \<^verbatim>\<open>mkdir(exist_ok=True)\<close> keeps an existing
  directory and raises on an existing regular file.\<close>

definition create_upload :: "string \<Rightarrow> bytes \<Rightarrow> server \<Rightarrow> outcome \<times> server" where
  "create_upload upload_id meta_text s =
     (case uploads s upload_id of
        Some (File _) \<Rightarrow> (Raise FileExistsError, s)
      | Some (Dir d) \<Rightarrow>
          (Return (Json [''upload_id'' \<mapsto> JStr upload_id]) 201,
           s\<lparr>uploads := (uploads s)(upload_id \<mapsto> Dir (d(''meta.json'' \<mapsto> meta_text)))\<rparr>)
      | None \<Rightarrow>
          (Return (Json [''upload_id'' \<mapsto> JStr upload_id]) 201,
           s\<lparr>uploads := (uploads s)(upload_id \<mapsto> Dir [''meta.json'' \<mapsto> meta_text])\<rparr>))"

text \<open>The \<^verbatim>\<open>X-Chunk-Index\<close> header as \<^verbatim>\<open>upload_chunk\<close> reads it: absent, rejected
  by \<^verbatim>\<open>int()\<close>, or an integer.\<close>

datatype chunk_header = NoHeader | BadHeader | ChunkIndex int

definition upload_chunk :: "string \<Rightarrow> chunk_header \<Rightarrow> bytes \<Rightarrow> server \<Rightarrow> outcome \<times> server" where
  "upload_chunk upload_id hdr data s =
     (case uploads s upload_id of
        None \<Rightarrow> (Return (Json [''error'' \<mapsto> JStr ''upload not found'']) 404, s)
      | Some e \<Rightarrow>
          (case hdr of
             NoHeader \<Rightarrow>
               (Return (Json [''error'' \<mapsto> JStr ''X-Chunk-Index header required'']) 400, s)
           | BadHeader \<Rightarrow> (Return (Json [''error'' \<mapsto> JStr ''invalid chunk index'']) 400, s)
           | ChunkIndex idx \<Rightarrow>
               (case e of
                  File _ \<Rightarrow> (Raise NotADirectoryError, s)
                | Dir d \<Rightarrow>
                    (Return Empty 204,
                     s\<lparr>uploads := (uploads s)(upload_id \<mapsto> Dir (d(chunk_name idx \<mapsto> data)))\<rparr>))))"


text \<open>A list \<open>ls\<close> is a possible result of \<^verbatim>\<open>upload_dir.iterdir()\<close>: every entry
  once, in any order.\<close>

definition iterdir :: "directory \<Rightarrow> string list \<Rightarrow> bool" where
  "iterdir d ls \<longleftrightarrow> distinct ls \<and> set ls = dom d"

text \<open>\<^verbatim>\<open>sorted([p for p in upload_dir.iterdir() if p.name.startswith("chunk-")])\<close>:
  paths of one directory compare as their names do.\<close>

definition chunk_parts :: "string list \<Rightarrow> string list" where
  "chunk_parts ls = sort (filter (prefix ''chunk-'') ls)"

text \<open>The loop that copies the parts into the final file.\<close>

fun assemble :: "directory \<Rightarrow> string list \<Rightarrow> bytes" where
  "assemble d [] = []"
| "assemble d (p # ps) = the (d p) @ assemble d ps"

text \<open>
  \<^verbatim>\<open>complete_upload\<close>. \<open>new_id\<close> is the value of \<^verbatim>\<open>uuid.uuid4()\<close>, \<open>now\<close> of
  \<^verbatim>\<open>time.time()\<close>, \<open>ls\<close> the directory listing and \<open>infer_ext\<close> the extension
  read from \<^verbatim>\<open>meta.json\<close> (\<^verbatim>\<open>.bin\<close> by default), a function of the directory.
  Failures of \<^verbatim>\<open>shutil.rmtree\<close> are swallowed by the source: \<open>rmtree_ok\<close> tells
  whether the removal happened.
\<close>

definition complete_upload ::
  "string \<Rightarrow> string \<Rightarrow> real \<Rightarrow> (directory \<Rightarrow> string) \<Rightarrow> string list \<Rightarrow> bool \<Rightarrow> server
     \<Rightarrow> outcome \<times> server" where
  "complete_upload upload_id new_id now infer_ext ls rmtree_ok s =
     (case uploads s upload_id of
        None \<Rightarrow> (Return (Json [''error'' \<mapsto> JStr ''upload not found'']) 404, s)
      | Some (File _) \<Rightarrow> (Raise NotADirectoryError, s)
      | Some (Dir d) \<Rightarrow>
          (let parts = chunk_parts ls in
           if parts = [] then (Return (Json [''error'' \<mapsto> JStr ''no chunks found'']) 400, s)
           else
             let final_name = new_id @ infer_ext d in
             (case uploads s final_name of
                Some (Dir _) \<Rightarrow> (Raise IsADirectoryError, s)
              | _ \<Rightarrow>
                 let s1 = s\<lparr>uploads := (uploads s)(final_name \<mapsto> File (assemble d parts))\<rparr> in
                 if new_id \<in> dom (songs s1) then (Raise IntegrityError, s1)
                 else
                   let row = \<lparr>song_id = new_id, title = JNull, artist = JNull,
                              filename = Some final_name, duration = None,
                              metadata = Some Map.empty, song_created_at = now\<rparr>;
                       s2 = s1\<lparr>songs := (songs s1)(new_id \<mapsto> row)\<rparr>;
                       s3 = (if rmtree_ok then s2\<lparr>uploads := (uploads s2)(upload_id := None)\<rparr>
                             else s2)
                   in (Return (Json [''file_id'' \<mapsto> JStr new_id,
                                     ''url'' \<mapsto> JStr (''/download/'' @ new_id)]) 201, s3))))"


section \<open>Songs\<close>

text \<open>
  \<^verbatim>\<open>upload\<close> (\<^verbatim>\<open>POST /upload\<close>). \<open>file\<close> is the \<^verbatim>\<open>file\<close> field (name and
  content), \<open>splitext_ext\<close> the second component of \<^verbatim>\<open>os.path.splitext\<close>, and
  \<open>form_metadata\<close> the decoded \<^verbatim>\<open>metadata\<close> field (\<open>None\<close> when the field is
  absent, empty or not JSON, where the source falls back to an empty dict).
\<close>

definition upload ::
  "(string \<times> bytes) option \<Rightarrow> (string \<Rightarrow> string) \<Rightarrow> json option \<Rightarrow> string \<Rightarrow> real \<Rightarrow> server
     \<Rightarrow> outcome \<times> server" where
  "upload file splitext_ext form_metadata new_id now s =
     (case file of
        None \<Rightarrow> (Return (Json [''error'' \<mapsto> JStr ''file missing'']) 400, s)
      | Some (fname, data) \<Rightarrow>
          if fname = [] then (Return (Json [''error'' \<mapsto> JStr ''empty filename'']) 400, s)
          else
            let ext = (if splitext_ext fname = [] then ''.bin'' else splitext_ext fname);
                fn = new_id @ ext
            in (case uploads s fn of
                  Some (Dir _) \<Rightarrow> (Raise IsADirectoryError, s)
                | _ \<Rightarrow>
                   let s1 = s\<lparr>uploads := (uploads s)(fn \<mapsto> File data)\<rparr> in
                   (case (case form_metadata of None \<Rightarrow> JObj Map.empty | Some v \<Rightarrow> v) of
                      JObj meta_obj \<Rightarrow>
                        if \<not> sql_bindable (dict_get meta_obj ''title'')
                           \<or> \<not> sql_bindable (dict_get meta_obj ''artist'')
                        then (Raise BindingError, s1)
                        else if new_id \<in> dom (songs s1) then (Raise IntegrityError, s1)
                        else
                          (Return (Json [''file_id'' \<mapsto> JStr new_id,
                                         ''url'' \<mapsto> JStr (''/download/'' @ new_id),
                                         ''title'' \<mapsto> dict_get meta_obj ''title'',
                                         ''artist'' \<mapsto> dict_get meta_obj ''artist'']) 201,
                           s1\<lparr>songs := (songs s1)(new_id \<mapsto>
                               \<lparr>song_id = new_id, title = dict_get meta_obj ''title'',
                                artist = dict_get meta_obj ''artist'', filename = Some fn,
                                duration = None, metadata = Some meta_obj,
                                song_created_at = now\<rparr>)\<rparr>)
                    | _ \<Rightarrow> (Raise AttributeError, s1))))"


text \<open>
  The \<^verbatim>\<open>DELETE\<close> branch of \<^verbatim>\<open>song_detail\<close>: \<^verbatim>\<open>unlink\<close> tolerates a missing file
  only; on a directory it raises.
\<close>

definition song_delete :: "string \<Rightarrow> server \<Rightarrow> outcome \<times> server" where
  "song_delete fid s =
     (let unlinked =
        (case songs s fid of
           None \<Rightarrow> Inr s
         | Some r \<Rightarrow>
             (case filename r of
                None \<Rightarrow> Inr s
              | Some fn \<Rightarrow>
                  if fn = [] then Inr s
                  else (case uploads s fn of
                          None \<Rightarrow> Inr s
                        | Some (File _) \<Rightarrow> Inr (s\<lparr>uploads := (uploads s)(fn := None)\<rparr>)
                        | Some (Dir _) \<Rightarrow> Inl IsADirectoryError)))
      in case unlinked of
           Inl e \<Rightarrow> (Raise e, s)
         | Inr s1 \<Rightarrow> (Return Empty 204, s1\<lparr>songs := (songs s1)(fid := None)\<rparr>))"

section \<open>Jobs\<close>

text \<open>
  \<^verbatim>\<open>start_process\<close>. \<open>redis_url\<close> is the environment variable, \<open>rq_installed\<close>
  tells whether \<^verbatim>\<open>Queue\<close> and \<^verbatim>\<open>Redis\<close> were imported, \<open>enqueue_raises\<close>
  whether the \<^verbatim>\<open>try\<close> block around the enqueue raises. Only the \<^verbatim>\<open>else\<close> branch
  of the source has a \<^verbatim>\<open>return\<close> statement.
\<close>

definition start_process ::
  "string \<Rightarrow> string \<Rightarrow> string \<Rightarrow> real \<Rightarrow> string option \<Rightarrow> bool \<Rightarrow> bool \<Rightarrow> server
     \<Rightarrow> outcome \<times> server" where
  "start_process mdl fid new_id now redis_url rq_installed enqueue_raises s =
     (if new_id \<in> job_id ` set (jobs s) then (Raise IntegrityError, s)
      else
        let s1 = s\<lparr>jobs := jobs s @
                   [\<lparr>job_id = new_id, file_id = fid, model = mdl, status = ''processing'',
                     progress = 0, message = ''queued'', created_at = now\<rparr>]\<rparr>
        in if redis_url \<noteq> None \<and> redis_url \<noteq> Some [] \<and> rq_installed then
             (if enqueue_raises
              then (ReturnNone, s1\<lparr>threads := threads s1 @ [(new_id, fid, mdl)]\<rparr>)
              else (ReturnNone, s1\<lparr>rq := rq s1 @ [(new_id, fid, mdl)]\<rparr>))
           else
             (Return (Json [''status'' \<mapsto> JStr ''accepted'', ''job_id'' \<mapsto> JStr new_id,
                            ''file_id'' \<mapsto> JStr fid]) 202,
              s1\<lparr>threads := threads s1 @ [(new_id, fid, mdl)]\<rparr>))"

text \<open>\<^verbatim>\<open>job_status\<close> (\<^verbatim>\<open>GET /status/<job_id>\<close>): the row as a JSON object.\<close>

definition job_row :: "job \<Rightarrow> pydict" where
  "job_row r = [''id'' \<mapsto> JStr (job_id r), ''file_id'' \<mapsto> JStr (file_id r),
     ''model'' \<mapsto> JStr (model r), ''status'' \<mapsto> JStr (status r),
     ''progress'' \<mapsto> JNum (progress r), ''message'' \<mapsto> JStr (message r),
     ''created_at'' \<mapsto> JNum (created_at r)]"

definition job_status :: "string \<Rightarrow> server \<Rightarrow> outcome" where
  "job_status jid s =
     (case find (\<lambda>r. job_id r = jid) (jobs s) of
        None \<Rightarrow> Return (Json [''error'' \<mapsto> JStr ''not found'']) 404
      | Some r \<Rightarrow> Return (Json (job_row r)) 200)"

text \<open>\<^verbatim>\<open>UPDATE jobs SET ... WHERE id=?\<close>.\<close>

definition update_job :: "string \<Rightarrow> (job \<Rightarrow> job) \<Rightarrow> job list \<Rightarrow> job list" where
  "update_job jid f js = map (\<lambda>r. if job_id r = jid then f r else r) js"

text \<open>
  What can go wrong inside the \<^verbatim>\<open>try\<close> block of \<^verbatim>\<open>background_process\<close>:
  \<open>RaiseAt k e\<close> is an exception with text \<open>e\<close> raised in iteration \<open>k\<close> of the
  simulated work (\<open>k\<close> from 1 to 5, before that iteration's \<^verbatim>\<open>UPDATE\<close>), or, for
  \<open>k = 6\<close>, while the output artifact is made. The artifact is written under
  \<^verbatim>\<open>OUTPUTS_DIR\<close>, which is not part of the state modelled here.
\<close>

datatype fault = NoFault | RaiseAt nat string

fun raises_at :: "fault \<Rightarrow> nat \<Rightarrow> string option" where
  "raises_at NoFault i = None"
| "raises_at (RaiseAt k e) i = (if k = i then Some e else None)"

text \<open>The loop \<^verbatim>\<open>for i in range(1, 6)\<close>; the result tells whether it raised, and
  holds the table with the updates committed so far.\<close>

fun run_stages :: "fault \<Rightarrow> string \<Rightarrow> nat list \<Rightarrow> job list \<Rightarrow> string option \<times> job list" where
  "run_stages flt jid [] js = (None, js)"
| "run_stages flt jid (i # is) js =
     (case raises_at flt i of
        Some e \<Rightarrow> (Some e, js)
      | None \<Rightarrow>
          run_stages flt jid is
            (update_job jid (\<lambda>r. r\<lparr>progress := real i / 5, message := ''stage '' @ str_nat i\<rparr>) js))"

definition background_process :: "string \<Rightarrow> string \<Rightarrow> string \<Rightarrow> fault \<Rightarrow> server \<Rightarrow> server" where
  "background_process jid fid mdl flt s =
     (let failed = (\<lambda>e js. s\<lparr>jobs := update_job jid (\<lambda>r. r\<lparr>status := ''failed'', message := e\<rparr>) js\<rparr>)
      in case run_stages flt jid [1..<6] (jobs s) of
           (Some e, js) \<Rightarrow> failed e js
         | (None, js) \<Rightarrow>
             (case raises_at flt 6 of
                Some e \<Rightarrow> failed e js
              | None \<Rightarrow>
                  s\<lparr>jobs := update_job jid
                      (\<lambda>r. r\<lparr>status := ''completed'', progress := 1, message := ''done''\<rparr>) js\<rparr>))"

text \<open>
  The poller's \<^verbatim>\<open>SELECT ... WHERE status='queued' ORDER BY created_at LIMIT 1\<close>. Among
  rows with the same \<^verbatim>\<open>created_at\<close> the model takes the first in table order.
\<close>

definition select_queued :: "job list \<Rightarrow> job option" where
  "select_queued js =
     (case filter (\<lambda>r. status r = ''queued'') js of
        [] \<Rightarrow> None
      | q # qs \<Rightarrow> Some (arg_min_list created_at (q # qs)))"

text \<open>The poller's \<^verbatim>\<open>UPDATE jobs SET status=?, message=? WHERE id=?\<close>, a statement of
  its own on a second connection.\<close>

definition mark_processing :: "string \<Rightarrow> job list \<Rightarrow> job list" where
  "mark_processing jid js =
     update_job jid (\<lambda>r. r\<lparr>status := ''processing'', message := ''taken by poller''\<rparr>) js"

text \<open>One iteration of the loop of \<^verbatim>\<open>job_poller\<close>; the result names the job it ran,
  or is \<open>None\<close> when it slept.\<close>

definition poller_iteration :: "fault \<Rightarrow> server \<Rightarrow> string option \<times> server" where
  "poller_iteration flt s =
     (case select_queued (jobs s) of
        None \<Rightarrow> (None, s)
      | Some r \<Rightarrow>
          (Some (job_id r),
           background_process (job_id r) (file_id r) (model r) flt
             (s\<lparr>jobs := mark_processing (job_id r) (jobs s)\<rparr>)))"

text \<open>The first iterations of \<^verbatim>\<open>while True\<close>, one \<open>fault\<close> for each; the result
  lists the jobs run, in order.\<close>

fun job_poller :: "fault list \<Rightarrow> server \<Rightarrow> string list \<times> server" where
  "job_poller [] s = ([], s)"
| "job_poller (flt # flts) s =
     (case poller_iteration flt s of
        (None, s1) \<Rightarrow> job_poller flts s1
      | (Some jid, s1) \<Rightarrow> (case job_poller flts s1 of (rest, s2) \<Rightarrow> (jid # rest, s2)))"

text \<open>
  Several pollers on one database. A poller is between iterations (\<open>Idle\<close>), has read a
  row with its \<^verbatim>\<open>SELECT\<close> and not yet written (\<open>Selected\<close>), or has marked the row
  and is running the job (\<open>Running\<close>). Each SQL statement is one step; \<open>poller_step\<close>
  lets poller \<open>p\<close> take its next step.
\<close>

datatype poller_state = Idle | Selected job | Running job

type_synonym pollers = "nat \<Rightarrow> poller_state"

definition poller_step :: "nat \<Rightarrow> server \<times> pollers \<Rightarrow> server \<times> pollers" where
  "poller_step p c =
     (case c of (s, ps) \<Rightarrow>
        (case ps p of
           Idle \<Rightarrow>
             (case select_queued (jobs s) of
                None \<Rightarrow> (s, ps)
              | Some r \<Rightarrow> (s, ps(p := Selected r)))
         | Selected r \<Rightarrow>
             (s\<lparr>jobs := mark_processing (job_id r) (jobs s)\<rparr>, ps(p := Running r))
         | Running r \<Rightarrow>
             (background_process (job_id r) (file_id r) (model r) NoFault s, ps(p := Idle))))"

text \<open>A schedule names the poller that moves at each step.\<close>

fun run_pollers :: "nat list \<Rightarrow> server \<times> pollers \<Rightarrow> server \<times> pollers" where
  "run_pollers [] c = c"
| "run_pollers (p # sched) c = run_pollers sched (poller_step p c)"

section \<open>Progress tracking (\<^verbatim>\<open>progress_tracker.py\<close>)\<close>

text \<open>
  Times and percentages are Python floats; the model computes with real numbers, and
  \<^verbatim>\<open>2.718 ** x\<close> is \<open>2.718 powr x\<close>. A message built with an f-string is kept as
  its template and the values put into it.
\<close>

datatype message =
    Text string
  | SeparationComplete real
  | Predicted string int int
  | ErrorText string

record event =
  ev_file_id :: string
  ev_stage :: string
  ev_progress :: real
  ev_message :: message
  ev_estimated_time :: "real option"
  ev_error :: "string option"

text \<open>A \<^verbatim>\<open>ProgressTracker\<close>, with the events sent through its \<^verbatim>\<open>socketio\<close>.\<close>

record tracker =
  tr_file_id :: string
  audio_duration :: "real option"
  start_times :: "string \<rightharpoonup> real"
  emitted :: "event list"

text \<open>The thread started by \<^verbatim>\<open>_start_predictive_progress\<close>: the variables of its
  closure, and whether it has left its loop. The tracker keeps no reference to it.\<close>

record timer =
  tm_stage :: string
  tm_estimated_time :: real
  tm_start :: real
  tm_last_progress :: real
  tm_alive :: bool

definition emit_progress :: "string \<Rightarrow> real \<Rightarrow> message \<Rightarrow> real option \<Rightarrow> tracker \<Rightarrow> tracker" where
  "emit_progress stage p msg estimated_time tr =
     tr\<lparr>emitted := emitted tr @
        [\<lparr>ev_file_id = tr_file_id tr, ev_stage = stage, ev_progress = min 100 (max 0 p),
          ev_message = msg, ev_estimated_time = estimated_time, ev_error = None\<rparr>]\<rparr>"

definition emit_error :: "string \<Rightarrow> string \<Rightarrow> tracker \<Rightarrow> tracker" where
  "emit_error stage error_message tr =
     tr\<lparr>emitted := emitted tr @
        [\<lparr>ev_file_id = tr_file_id tr, ev_stage = stage, ev_progress = 0,
          ev_message = ErrorText error_message, ev_estimated_time = None,
          ev_error = Some error_message\<rparr>]\<rparr>"

text \<open>\<^verbatim>\<open>int(x)\<close> on a float: truncation towards zero.\<close>

definition py_int :: "real \<Rightarrow> int" where
  "py_int x = (if 0 \<le> x then \<lfloor>x\<rfloor> else \<lceil>x\<rceil>)"

text \<open>The value computed in the loop of \<^verbatim>\<open>update_progress\<close>.\<close>

definition predictive_progress :: "real \<Rightarrow> real \<Rightarrow> real" where
  "predictive_progress estimated_time elapsed =
     (let t_normalized = (elapsed / estimated_time) * 12 - 6
      in 95 / (1 + 2.718 powr (- t_normalized)))"

text \<open>\<^verbatim>\<open>_start_predictive_progress\<close>: the new thread; \<open>now\<close> is its first reading of
  the clock.\<close>

definition start_predictive_progress :: "string \<Rightarrow> real \<Rightarrow> real \<Rightarrow> timer" where
  "start_predictive_progress stage estimated_time now =
     \<lparr>tm_stage = stage, tm_estimated_time = estimated_time, tm_start = now,
      tm_last_progress = 0, tm_alive = True\<rparr>"

text \<open>
  One pass through the loop of \<^verbatim>\<open>update_progress\<close>, with \<open>now\<close> the reading of
  \<^verbatim>\<open>time.time()\<close>. The loop is left only through its \<^verbatim>\<open>break\<close>; a division by
  zero would end the thread as well.
\<close>

definition update_progress :: "real \<Rightarrow> timer \<times> tracker \<Rightarrow> timer \<times> tracker" where
  "update_progress now c =
     (case c of (tm, tr) \<Rightarrow>
        if \<not> tm_alive tm then (tm, tr)
        else
          let elapsed = now - tm_start tm in
          if elapsed \<ge> tm_estimated_time tm then (tm\<lparr>tm_alive := False\<rparr>, tr)
          else if tm_estimated_time tm = 0 then (tm\<lparr>tm_alive := False\<rparr>, tr)
          else
            let p = predictive_progress (tm_estimated_time tm) elapsed in
            if p - tm_last_progress tm \<ge> 1 then
              let remaining = tm_estimated_time tm - elapsed in
              (tm\<lparr>tm_last_progress := p\<rparr>,
               emit_progress (tm_stage tm) p
                 (Predicted (tm_stage tm) (py_int elapsed) (py_int remaining)) (Some remaining) tr)
            else (tm, tr))"

definition start_separation_progress :: "real \<Rightarrow> tracker \<Rightarrow> timer \<times> tracker" where
  "start_separation_progress now tr =
     (let tr1 = tr\<lparr>start_times := (start_times tr)(''separation'' \<mapsto> now)\<rparr>;
          estimated_time =
            (case audio_duration tr of
               None \<Rightarrow> 180
             | Some d \<Rightarrow> if d = 0 then 180 else d * 1.5)
      in (start_predictive_progress ''separation'' estimated_time now,
          emit_progress ''separation'' 0 (Text ''Initializing audio separation...'')
            (Some estimated_time) tr1))"

definition complete_separation :: "real \<Rightarrow> tracker \<Rightarrow> tracker" where
  "complete_separation now tr =
     (let elapsed = now - (case start_times tr ''separation'' of None \<Rightarrow> now | Some t \<Rightarrow> t)
      in emit_progress ''separation'' 100 (SeparationComplete elapsed) None tr)"

text \<open>What happens to a stage after it started: its timer thread wakes up (every half
  second in the source), or the caller reports the end of the stage.\<close>

datatype action = Tick real | Complete real | Failed string

fun stage_step :: "action \<Rightarrow> timer \<times> tracker \<Rightarrow> timer \<times> tracker" where
  "stage_step (Tick now) c = update_progress now c"
| "stage_step (Complete now) (tm, tr) = (tm, complete_separation now tr)"
| "stage_step (Failed e) (tm, tr) = (tm, emit_error (tm_stage tm) e tr)"

fun stage_run :: "action list \<Rightarrow> timer \<times> tracker \<Rightarrow> timer \<times> tracker" where
  "stage_run [] c = c"
| "stage_run (a # as) c = stage_run as (stage_step a c)"


section \<open>States the server can reach\<close>


section \<open>Example states\<close>

text \<open>The server after one \<^verbatim>\<open>POST /upload\<close> of a three-byte file \<^verbatim>\<open>a.wav\<close> without
  metadata, stored as \<^verbatim>\<open>song-1.wav\<close>.\<close>

definition wav_ext :: "string \<Rightarrow> string" where
  "wav_ext fname = ''.wav''"

definition uploaded_song :: server where
  "uploaded_song = snd (upload (Some (''a.wav'', [1, 2, 3])) wav_ext None ''song-1'' 0 init_server)"

text \<open>Two queued jobs, as rows put into the table from outside \<^verbatim>\<open>start_process\<close>.\<close>

definition job1 :: job where
  "job1 = \<lparr>job_id = ''job-1'', file_id = ''song-42'', model = ''demucs'', status = ''queued'',
     progress = 0, message = [], created_at = 1\<rparr>"

definition job2 :: job where
  "job2 = \<lparr>job_id = ''job-2'', file_id = ''song-43'', model = ''demucs'', status = ''queued'',
     progress = 0, message = [], created_at = 2\<rparr>"

definition all_idle :: pollers where
  "all_idle p = Idle"

text \<open>A tracker for a file whose separation is estimated at ten seconds.\<close>

definition tracker0 :: tracker where
  "tracker0 = \<lparr>tr_file_id = ''song-42'', audio_duration = Some (20 / 3), start_times = Map.empty,
     emitted = []\<rparr>"

section \<open>A session of 1000001 chunks\<close>







definition cex_ext :: "directory \<Rightarrow> string" where
  "cex_ext d = ''.bin''"

section \<open>Chunk names sort as their indices below \<open>10 ^ 6\<close>\<close>



lemma digit_char_zero: "digit_char 0 = CHR ''0''"
  by (simp add: digit_char_def)

lemma length_fixdec [simp]: "length (fixdec k n) = k"
  by (induction k arbitrary: n) simp_all

lemma fixdec_zero: "fixdec k 0 = replicate k (CHR ''0'')"
  by (induction k) (simp_all add: digit_char_zero replicate_append_same)

lemma fixdec_small: "n < 10 \<Longrightarrow> fixdec (Suc k) n = replicate k (CHR ''0'') @ [digit_char n]"
  by (simp add: fixdec_zero)






section \<open>The session directory after the uploads\<close>
































section \<open>Completing an upload: the error paths\<close>

lemma uploaded_song_state:
  "uploaded_song = \<lparr>uploads = [''song-1.wav'' \<mapsto> File [1, 2, 3]],
     songs = [''song-1'' \<mapsto> \<lparr>song_id = ''song-1'', title = JNull, artist = JNull,
        filename = Some ''song-1.wav'', duration = None, metadata = Some Map.empty,
        song_created_at = 0\<rparr>],
     jobs = [], threads = [], rq = []\<rparr>"
  by (simp add: uploaded_song_def upload_def init_server_def wav_ext_def dict_get_def Let_def)

lemma complete_upload_unknown:
  "uploads s uid = None \<Longrightarrow>
   complete_upload uid new_id now infer_ext ls rmtree_ok s
     = (Return (Json [''error'' \<mapsto> JStr ''upload not found'']) 404, s)"
  by (simp add: complete_upload_def)

lemma complete_upload_no_chunks:
  assumes "uploads s uid = Some (Dir d)" "iterdir d ls" "\<forall>p \<in> dom d. \<not> prefix ''chunk-'' p"
  shows "complete_upload uid new_id now infer_ext ls rmtree_ok s
     = (Return (Json [''error'' \<mapsto> JStr ''no chunks found'']) 400, s)"
proof -
  have "filter (prefix ''chunk-'') ls = []"
    using assms(2,3) by (auto simp: iterdir_def filter_empty_conv)
  then show ?thesis using assms(1) by (simp add: complete_upload_def chunk_parts_def)
qed

lemma complete_upload_twice:
  assumes "complete_upload uid new_id now infer_ext ls True s = (Return b 201, s1)"
  shows "complete_upload uid new_id' now' infer_ext' ls' rmtree_ok' s1
     = (Return (Json [''error'' \<mapsto> JStr ''upload not found'']) 404, s1)"
proof -
  have "uploads s1 uid = None"
    using assms
    by (auto simp: complete_upload_def Let_def split: option.splits entry.splits if_splits)
  then show ?thesis by (rule complete_upload_unknown)
qed

text \<open>
  Claim C7 at a failing input. After one \<^verbatim>\<open>POST /upload\<close> the upload root holds the
  regular file \<^verbatim>\<open>song-1.wav\<close>; no session of that name exists. Completing the upload
  \<^verbatim>\<open>song-1.wav\<close> passes the test \<^verbatim>\<open>upload_dir.exists()\<close> and raises
  \<^verbatim>\<open>NotADirectoryError\<close> in \<^verbatim>\<open>iterdir()\<close>, where the claim asks for 404.
\<close>

theorem complete_upload_on_file_raises:
  "uploads uploaded_song ''song-1.wav'' = Some (File [1, 2, 3])
   \<and> complete_upload ''song-1.wav'' ''song-2'' 1 cex_ext [] True uploaded_song
       = (Raise NotADirectoryError, uploaded_song)"
  by (simp add: uploaded_song_state complete_upload_def)

section \<open>Dispatch\<close>

text \<open>
  Claim C2 at a failing input. With \<^verbatim>\<open>REDIS_URL\<close> set and \<^verbatim>\<open>rq\<close> installed,
  \<^verbatim>\<open>start_process\<close> ends without a \<^verbatim>\<open>return\<close> statement, whether the enqueue
  succeeds or raises: the view function returns \<^verbatim>\<open>None\<close>, not a 202 response.
\<close>

theorem start_process_queue_returns_none:
  "fst (start_process ''demucs'' ''song-42'' ''job-1'' 0 (Some ''redis://localhost:6379'') True False
         init_server) = ReturnNone
   \<and> fst (start_process ''demucs'' ''song-42'' ''job-1'' 0 (Some ''redis://localhost:6379'') True True
         init_server) = ReturnNone"
  by (simp add: start_process_def init_server_def)

lemma start_process_default_202:
  "new_id \<notin> job_id ` set (jobs s) \<Longrightarrow> redis_url = None \<or> redis_url = Some [] \<or> \<not> rq_installed \<Longrightarrow>
   fst (start_process mdl fid new_id now redis_url rq_installed enqueue_raises s)
     = Return (Json [''status'' \<mapsto> JStr ''accepted'', ''job_id'' \<mapsto> JStr new_id,
                     ''file_id'' \<mapsto> JStr fid]) 202"
  by (auto simp: start_process_def Let_def)


lemma find_append_None: "find P xs = None \<Longrightarrow> find P (xs @ ys) = find P ys"
  by (induction xs) (auto split: if_splits)

text \<open>
  Claim C3, as amended. The row that \<^verbatim>\<open>start_process\<close> inserts has status
  \<^verbatim>\<open>processing\<close>, progress 0 and message \<^verbatim>\<open>queued\<close>, on every path through the
  function, and \<^verbatim>\<open>GET /status\<close> returns that row right after.
\<close>

theorem start_process_inserts_processing:
  assumes "new_id \<notin> job_id ` set (jobs s)"
  shows "\<exists>r. find (\<lambda>r. job_id r = new_id)
              (jobs (snd (start_process mdl fid new_id now redis_url rq_installed enqueue_raises s)))
            = Some r
          \<and> status r = ''processing'' \<and> progress r = 0 \<and> message r = ''queued''
          \<and> file_id r = fid \<and> model r = mdl
          \<and> job_status new_id
               (snd (start_process mdl fid new_id now redis_url rq_installed enqueue_raises s))
             = Return (Json (job_row r)) 200"
proof -
  let ?row = "\<lparr>job_id = new_id, file_id = fid, model = mdl, status = ''processing'',
                progress = 0, message = ''queued'', created_at = now\<rparr>"
  have none: "find (\<lambda>r. job_id r = new_id) (jobs s) = None"
    using assms by (auto simp: find_None_iff)
  have "find (\<lambda>r. job_id r = new_id) (jobs s @ [?row]) = Some ?row"
    using none by (simp add: find_append_None)
  moreover have "jobs (snd (start_process mdl fid new_id now redis_url rq_installed enqueue_raises s))
      = jobs s @ [?row]"
    using assms by (simp add: start_process_def Let_def)
  ultimately show ?thesis by (simp add: job_status_def)
qed

text \<open>
  The theorem at a dispatch on the empty server.
\<close>

theorem start_process_inserts_processing_witness:
  "\<exists>r. find (\<lambda>r. job_id r = ''job-1'')
          (jobs (snd (start_process ''demucs'' ''song-42'' ''job-1'' 0 None False False init_server)))
        = Some r
      \<and> status r = ''processing'' \<and> progress r = 0 \<and> message r = ''queued''
      \<and> file_id r = ''song-42'' \<and> model r = ''demucs''
      \<and> job_status ''job-1''
           (snd (start_process ''demucs'' ''song-42'' ''job-1'' 0 None False False init_server))
         = Return (Json (job_row r)) 200"
proof -
  have "''job-1'' \<notin> job_id ` set (jobs init_server)" by (simp add: init_server_def)
  then show ?thesis by (rule start_process_inserts_processing)
qed

text \<open>
  Claim C3 as stated fails: read right after the dispatch, the status of the new job is
  \<^verbatim>\<open>processing\<close>, not \<^verbatim>\<open>queued\<close>.
\<close>

theorem start_process_status_counterexample:
  "job_status ''job-1''
     (snd (start_process ''demucs'' ''song-42'' ''job-1'' 0 None False False init_server))
   = Return (Json (job_row \<lparr>job_id = ''job-1'', file_id = ''song-42'', model = ''demucs'',
        status = ''processing'', progress = 0, message = ''queued'', created_at = 0\<rparr>)) 200
   \<and> job_row \<lparr>job_id = ''job-1'', file_id = ''song-42'', model = ''demucs'',
        status = ''processing'', progress = 0, message = ''queued'', created_at = 0\<rparr> ''status''
      \<noteq> Some (JStr ''queued'')"
  by (simp add: start_process_def init_server_def job_status_def job_row_def)

section \<open>The jobs table under the poller\<close>

lemma update_job_compose:
  "(\<And>r. job_id (g r) = job_id r) \<Longrightarrow>
   update_job jid f (update_job jid g js) = update_job jid (\<lambda>r. f (g r)) js"
  by (simp add: update_job_def)

lemma select_queued_Some:
  assumes "select_queued js = Some r"
  shows "r \<in> set js" "status r = ''queued''"
    "\<forall>q \<in> set js. status q = ''queued'' \<longrightarrow> created_at r \<le> created_at q"
proof -
  let ?qs = "filter (\<lambda>r. status r = ''queued'') js"
  have ne: "?qs \<noteq> []" and r: "r = arg_min_list created_at ?qs"
    using assms by (auto simp: select_queued_def split: list.splits)
  have "r \<in> set ?qs" using arg_min_list_in [OF ne, of created_at] r by simp
  then show "r \<in> set js" "status r = ''queued''" by auto
  have "created_at r = Min (created_at ` set ?qs)"
    using f_arg_min_list_f [OF ne, of created_at] r by simp
  then show "\<forall>q \<in> set js. status q = ''queued'' \<longrightarrow> created_at r \<le> created_at q" by auto
qed

lemma select_queued_None: "select_queued js = None \<longleftrightarrow> (\<forall>q \<in> set js. status q \<noteq> ''queued'')"
proof -
  have "select_queued js = None \<longleftrightarrow> filter (\<lambda>r. status r = ''queued'') js = []"
    by (simp add: select_queued_def split: list.splits)
  then show ?thesis by (simp add: filter_empty_conv)
qed

lemma update_job_id: "update_job jid (\<lambda>r. r) js = js"
  by (induction js) (simp_all add: update_job_def)

lemma run_stages_shape:
  "\<exists>G. (\<forall>r. job_id (G r) = job_id r \<and> status (G r) = status r)
       \<and> snd (run_stages flt jid is js) = update_job jid G js"
proof (induction "is" arbitrary: js)
  case Nil
  show ?case by (intro exI [of _ "\<lambda>r. r"]) (simp add: update_job_id)
next
  case (Cons i "is")
  show ?case
  proof (cases "raises_at flt i")
    case (Some e)
    show ?thesis using Some by (intro exI [of _ "\<lambda>r. r"]) (simp add: update_job_id)
  next
    case None
    let ?g = "\<lambda>r. r\<lparr>progress := real i / 5, message := ''stage '' @ str_nat i\<rparr>"
    obtain G where G: "\<forall>r. job_id (G r) = job_id r \<and> status (G r) = status r"
      "snd (run_stages flt jid is (update_job jid ?g js)) = update_job jid G (update_job jid ?g js)"
      using Cons.IH by blast
    have "update_job jid G (update_job jid ?g js) = update_job jid (\<lambda>r. G (?g r)) js"
      by (rule update_job_compose) simp
    then show ?thesis using None G by (intro exI [of _ "\<lambda>r. G (?g r)"]) simp
  qed
qed

lemma run_stages_fst:
  "fst (run_stages flt jid is js)
     = (case flt of NoFault \<Rightarrow> None | RaiseAt k e \<Rightarrow> if k \<in> set is then Some e else None)"
  by (induction "is" arbitrary: js) (auto split: fault.splits option.splits)

text \<open>What \<^verbatim>\<open>background_process\<close> leaves in the table: the rows of the job rewritten by
  one function, the others as they were.\<close>

lemma background_process_shape:
  "\<exists>F. (\<forall>r. job_id (F r) = job_id r
            \<and> status (F r) = (case flt of
                 NoFault \<Rightarrow> ''completed''
               | RaiseAt k e \<Rightarrow> if 1 \<le> k \<and> k \<le> 6 then ''failed'' else ''completed'')
            \<and> (\<forall>k e. flt = RaiseAt k e \<longrightarrow> 1 \<le> k \<longrightarrow> k \<le> 6 \<longrightarrow> message (F r) = e))
       \<and> background_process jid fid mdl flt s = s\<lparr>jobs := update_job jid F (jobs s)\<rparr>"
proof -
  obtain G where G: "\<forall>r. job_id (G r) = job_id r \<and> status (G r) = status r"
    "snd (run_stages flt jid [1..<6] (jobs s)) = update_job jid G (jobs s)"
    using run_stages_shape by blast
  let ?fail = "\<lambda>e r. r\<lparr>status := ''failed'', message := e\<rparr>"
  let ?ok = "\<lambda>r. r\<lparr>status := ''completed'', progress := 1, message := ''done''\<rparr>"
  have comp: "update_job jid f (update_job jid G (jobs s)) = update_job jid (\<lambda>r. f (G r)) (jobs s)" for f
    using G(1) by (intro update_job_compose) simp
  have set16: "k \<in> set [1..<6] \<longleftrightarrow> 1 \<le> k \<and> k < 6" for k :: nat by auto
  show ?thesis
  proof (cases flt)
    case NoFault
    then have "background_process jid fid mdl flt s = s\<lparr>jobs := update_job jid (\<lambda>r. ?ok (G r)) (jobs s)\<rparr>"
      using G(2) run_stages_fst [of flt jid "[1..<6]" "jobs s"]
      by (cases "run_stages flt jid [1..<6] (jobs s)") (simp add: background_process_def comp)
    then show ?thesis using NoFault G(1) by (intro exI [of _ "\<lambda>r. ?ok (G r)"]) simp
  next
    case (RaiseAt k e)
    consider "1 \<le> k" "k < 6" | "k = 6" | "k = 0 \<or> 6 < k" by linarith
    then show ?thesis
    proof cases
      case 1
      then have "fst (run_stages flt jid [1..<6] (jobs s)) = Some e"
        unfolding run_stages_fst RaiseAt by (simp only: fault.case set16) simp
      then have "background_process jid fid mdl flt s
          = s\<lparr>jobs := update_job jid (\<lambda>r. ?fail e (G r)) (jobs s)\<rparr>"
        using G(2)
        by (cases "run_stages flt jid [1..<6] (jobs s)") (simp add: background_process_def comp)
      then show ?thesis using RaiseAt 1 G(1) by (intro exI [of _ "\<lambda>r. ?fail e (G r)"]) simp
    next
      case 2
      then have "fst (run_stages flt jid [1..<6] (jobs s)) = None"
        unfolding run_stages_fst RaiseAt by (simp only: fault.case set16) simp
      then have "background_process jid fid mdl flt s
          = s\<lparr>jobs := update_job jid (\<lambda>r. ?fail e (G r)) (jobs s)\<rparr>"
        using G(2) RaiseAt 2
        by (cases "run_stages flt jid [1..<6] (jobs s)") (simp add: background_process_def comp)
      then show ?thesis using RaiseAt 2 G(1) by (intro exI [of _ "\<lambda>r. ?fail e (G r)"]) simp
    next
      case 3
      then have "fst (run_stages flt jid [1..<6] (jobs s)) = None"
        unfolding run_stages_fst RaiseAt by (simp only: fault.case set16) auto
      then have "background_process jid fid mdl flt s
          = s\<lparr>jobs := update_job jid (\<lambda>r. ?ok (G r)) (jobs s)\<rparr>"
        using G(2) RaiseAt 3
        by (cases "run_stages flt jid [1..<6] (jobs s)") (auto simp: background_process_def comp)
      then show ?thesis using RaiseAt 3 G(1) by (intro exI [of _ "\<lambda>r. ?ok (G r)"]) auto
    qed
  qed
qed

lemma set_update_job:
  "set (update_job jid f js) = f ` {r \<in> set js. job_id r = jid} \<union> {r \<in> set js. job_id r \<noteq> jid}"
  by (auto simp: update_job_def)

lemma queued_after_update:
  assumes "\<forall>x. job_id (F x) = job_id x" "\<forall>x. status (F x) \<noteq> ''queued''"
  shows "job_id ` {r \<in> set (update_job jid F js). status r = ''queued''}
     = job_id ` {r \<in> set js. status r = ''queued''} - {jid}"
proof (intro equalityI subsetI)
  fix i assume "i \<in> job_id ` {r \<in> set (update_job jid F js). status r = ''queued''}"
  then obtain x where x: "x \<in> set (update_job jid F js)" "status x = ''queued''" "i = job_id x"
    by auto
  then have "x \<in> set js \<and> job_id x \<noteq> jid"
    unfolding set_update_job using assms(2) by auto
  then show "i \<in> job_id ` {r \<in> set js. status r = ''queued''} - {jid}" using x by auto
next
  fix i assume "i \<in> job_id ` {r \<in> set js. status r = ''queued''} - {jid}"
  then obtain x where x: "x \<in> set js" "status x = ''queued''" "i = job_id x" "job_id x \<noteq> jid"
    by auto
  then have "x \<in> set (update_job jid F js)" unfolding set_update_job by simp
  then show "i \<in> job_id ` {r \<in> set (update_job jid F js). status r = ''queued''}"
    using x by auto
qed

lemma poller_iteration_shape:
  assumes "select_queued (jobs s) = Some r"
  shows "\<exists>F. (\<forall>x. job_id (F x) = job_id x
            \<and> status (F x) = (case flt of
                 NoFault \<Rightarrow> ''completed''
               | RaiseAt k e \<Rightarrow> if 1 \<le> k \<and> k \<le> 6 then ''failed'' else ''completed'')
            \<and> (\<forall>k e. flt = RaiseAt k e \<longrightarrow> 1 \<le> k \<longrightarrow> k \<le> 6 \<longrightarrow> message (F x) = e))
       \<and> poller_iteration flt s = (Some (job_id r), s\<lparr>jobs := update_job (job_id r) F (jobs s)\<rparr>)"
proof -
  let ?m = "\<lambda>x. x\<lparr>status := ''processing'', message := ''taken by poller''\<rparr>"
  let ?s1 = "s\<lparr>jobs := mark_processing (job_id r) (jobs s)\<rparr>"
  obtain F where F: "\<forall>x. job_id (F x) = job_id x
            \<and> status (F x) = (case flt of
                 NoFault \<Rightarrow> ''completed''
               | RaiseAt k e \<Rightarrow> if 1 \<le> k \<and> k \<le> 6 then ''failed'' else ''completed'')
            \<and> (\<forall>k e. flt = RaiseAt k e \<longrightarrow> 1 \<le> k \<longrightarrow> k \<le> 6 \<longrightarrow> message (F x) = e)"
    and bp: "background_process (job_id r) (file_id r) (model r) flt ?s1
       = ?s1\<lparr>jobs := update_job (job_id r) F (jobs ?s1)\<rparr>"
    using background_process_shape [of flt "job_id r" "file_id r" "model r" ?s1] by blast
  have "update_job (job_id r) F (mark_processing (job_id r) (jobs s))
      = update_job (job_id r) (\<lambda>x. F (?m x)) (jobs s)"
    unfolding mark_processing_def by (rule update_job_compose) simp
  then have "poller_iteration flt s
      = (Some (job_id r), s\<lparr>jobs := update_job (job_id r) (\<lambda>x. F (?m x)) (jobs s)\<rparr>)"
    using assms bp by (simp add: poller_iteration_def)
  then show ?thesis using F by (intro exI [of _ "\<lambda>x. F (?m x)"]) simp
qed

lemma poller_iteration_queued:
  assumes "poller_iteration flt s = (Some jid, s1)"
  shows "jid \<in> job_id ` {r \<in> set (jobs s). status r = ''queued''}"
    and "job_id ` {r \<in> set (jobs s1). status r = ''queued''}
       = job_id ` {r \<in> set (jobs s). status r = ''queued''} - {jid}"
proof -
  obtain r where r: "select_queued (jobs s) = Some r"
    using assms by (cases "select_queued (jobs s)") (auto simp: poller_iteration_def)
  obtain F where F: "\<forall>x. job_id (F x) = job_id x
            \<and> status (F x) = (case flt of
                 NoFault \<Rightarrow> ''completed''
               | RaiseAt k e \<Rightarrow> if 1 \<le> k \<and> k \<le> 6 then ''failed'' else ''completed'')"
    and it: "poller_iteration flt s
       = (Some (job_id r), s\<lparr>jobs := update_job (job_id r) F (jobs s)\<rparr>)"
    using poller_iteration_shape [OF r, of flt] by blast
  have jid: "jid = job_id r" and s1: "jobs s1 = update_job jid F (jobs s)"
    using assms it by auto
  have nq: "status (F x) \<noteq> ''queued''" for x
    using F by (auto split: fault.splits)
  show "jid \<in> job_id ` {r \<in> set (jobs s). status r = ''queued''}"
    using select_queued_Some [OF r] jid by auto
  show "job_id ` {r \<in> set (jobs s1). status r = ''queued''}
       = job_id ` {r \<in> set (jobs s). status r = ''queued''} - {jid}"
    unfolding s1 using F nq by (intro queued_after_update) simp_all
qed

lemma poller_iteration_None: "poller_iteration flt s = (None, s1) \<Longrightarrow> s1 = s"
  by (cases "select_queued (jobs s)") (auto simp: poller_iteration_def)

lemma job_poller_distinct:
  "job_poller flts s = (ids, s') \<Longrightarrow>
   distinct ids \<and> set ids \<subseteq> job_id ` {r \<in> set (jobs s). status r = ''queued''}"
proof (induction flts arbitrary: s ids s')
  case Nil
  then show ?case by simp
next
  case (Cons flt flts)
  obtain x s1 where it: "poller_iteration flt s = (x, s1)" by (cases "poller_iteration flt s")
  show ?case
  proof (cases x)
    case None
    then have "s1 = s" using it poller_iteration_None by blast
    then have "job_poller flts s = (ids, s')" using Cons.prems it None by simp
    then show ?thesis by (rule Cons.IH)
  next
    case (Some jid)
    obtain rest s2 where rest: "job_poller flts s1 = (rest, s2)" by (cases "job_poller flts s1")
    then have ids: "ids = jid # rest" using Cons.prems it Some by simp
    have ih: "distinct rest" "set rest \<subseteq> job_id ` {r \<in> set (jobs s1). status r = ''queued''}"
      using Cons.IH [OF rest] by auto
    have q: "jid \<in> job_id ` {r \<in> set (jobs s). status r = ''queued''}"
      "job_id ` {r \<in> set (jobs s1). status r = ''queued''}
         = job_id ` {r \<in> set (jobs s). status r = ''queued''} - {jid}"
      using poller_iteration_queued [of flt s jid s1] it Some by auto
    show ?thesis using ids ih q by auto
  qed
qed

text \<open>
  Claim C4, as amended. The poller's claim is two statements: the \<^verbatim>\<open>SELECT\<close> returns
  a queued row with the least \<^verbatim>\<open>created_at\<close> and changes nothing; a later
  \<^verbatim>\<open>UPDATE\<close> sets every row of that id to \<^verbatim>\<open>processing\<close>, whatever its status is
  by then. One poller running its iterations one after the other never runs the same job
  id twice.
\<close>

theorem poller_claim_select_then_update:
  assumes "select_queued (jobs s) = Some r"
  shows "r \<in> set (jobs s) \<and> status r = ''queued''
     \<and> (\<forall>q \<in> set (jobs s). status q = ''queued'' \<longrightarrow> created_at r \<le> created_at q)
     \<and> poller_step p (s, ps(p := Idle)) = (s, ps(p := Selected r))
     \<and> poller_step p (s, ps(p := Selected r))
         = (s\<lparr>jobs := mark_processing (job_id r) (jobs s)\<rparr>, ps(p := Running r))
     \<and> (\<forall>q \<in> set (mark_processing (job_id r) (jobs s)).
           job_id q = job_id r \<longrightarrow> status q = ''processing'')
     \<and> (\<forall>flts. distinct (fst (job_poller flts s)))"
proof -
  have "distinct (fst (job_poller flts s))" for flts
    using job_poller_distinct [of flts s] by (cases "job_poller flts s") auto
  moreover have "\<forall>q \<in> set (mark_processing (job_id r) (jobs s)).
           job_id q = job_id r \<longrightarrow> status q = ''processing''"
    by (auto simp: mark_processing_def update_job_def)
  ultimately show ?thesis
    using select_queued_Some [OF assms] assms by (simp add: poller_step_def)
qed

lemma select_job1: "select_queued (jobs (init_server\<lparr>jobs := [job1, job2]\<rparr>)) = Some job1"
  by (simp add: select_queued_def init_server_def job1_def job2_def)

text \<open>
  The theorem on a table of two queued jobs.
\<close>

theorem poller_claim_select_then_update_witness:
  "job1 \<in> set (jobs (init_server\<lparr>jobs := [job1, job2]\<rparr>)) \<and> status job1 = ''queued''
   \<and> poller_step 0 (init_server\<lparr>jobs := [job1, job2]\<rparr>, all_idle(0 := Selected job1))
       = (init_server\<lparr>jobs := [job1, job2]\<rparr>
            \<lparr>jobs := mark_processing (job_id job1) (jobs (init_server\<lparr>jobs := [job1, job2]\<rparr>))\<rparr>,
          all_idle(0 := Running job1))
   \<and> distinct (fst (job_poller [NoFault, NoFault, NoFault] (init_server\<lparr>jobs := [job1, job2]\<rparr>)))"
  using poller_claim_select_then_update [OF select_job1, of 0 all_idle] by blast

text \<open>
  Claim C4 as stated fails: with one queued job and two pollers, the schedule in which
  both run their \<^verbatim>\<open>SELECT\<close> before either runs its \<^verbatim>\<open>UPDATE\<close> leaves both
  pollers running the same job.
\<close>

theorem two_pollers_same_job_counterexample:
  "snd (run_pollers [0, 1, 0, 1] (init_server\<lparr>jobs := [job1]\<rparr>, all_idle)) 0 = Running job1
   \<and> snd (run_pollers [0, 1, 0, 1] (init_server\<lparr>jobs := [job1]\<rparr>, all_idle)) 1 = Running job1"
  by (simp add: poller_step_def all_idle_def select_queued_def init_server_def job1_def)

text \<open>
  Claim C8. The poller picks the queued job \<open>r\<close> and its execution raises an exception
  with text \<open>e\<close>, at any of the six places of the \<^verbatim>\<open>try\<close> block. The iteration
  returns; every row of the job is then \<^verbatim>\<open>failed\<close> with message \<open>e\<close>; the rows of
  other jobs are as before; and if a queued job is left, the next iteration runs it to
  \<^verbatim>\<open>completed\<close>.
\<close>

theorem poller_contains_failure:
  assumes sel: "select_queued (jobs s) = Some r" and k: "1 \<le> k" "k \<le> 6"
  shows "\<exists>s1. poller_iteration (RaiseAt k e) s = (Some (job_id r), s1)
     \<and> (\<exists>q \<in> set (jobs s1). job_id q = job_id r)
     \<and> (\<forall>q \<in> set (jobs s1). job_id q = job_id r \<longrightarrow> status q = ''failed'' \<and> message q = e)
     \<and> (\<forall>q \<in> set (jobs s). job_id q \<noteq> job_id r \<longrightarrow> q \<in> set (jobs s1))
     \<and> (\<forall>r2. select_queued (jobs s1) = Some r2 \<longrightarrow>
           job_id r2 \<noteq> job_id r
           \<and> (\<exists>s2. poller_iteration NoFault s1 = (Some (job_id r2), s2)
                 \<and> fst (job_poller [RaiseAt k e, NoFault] s) = [job_id r, job_id r2]
                 \<and> (\<exists>q \<in> set (jobs s2). job_id q = job_id r2)
                 \<and> (\<forall>q \<in> set (jobs s2). job_id q = job_id r2 \<longrightarrow> status q = ''completed'')))"
proof -
  obtain F where F: "\<forall>x. job_id (F x) = job_id x \<and> status (F x) = ''failed'' \<and> message (F x) = e"
    and it: "poller_iteration (RaiseAt k e) s
       = (Some (job_id r), s\<lparr>jobs := update_job (job_id r) F (jobs s)\<rparr>)"
    using poller_iteration_shape [OF sel, of "RaiseAt k e"] k by auto
  let ?s1 = "s\<lparr>jobs := update_job (job_id r) F (jobs s)\<rparr>"
  have r: "r \<in> set (jobs s)" using select_queued_Some(1) [OF sel] .
  have js1: "set (jobs ?s1) = F ` {x \<in> set (jobs s). job_id x = job_id r}
      \<union> {x \<in> set (jobs s). job_id x \<noteq> job_id r}"
    by (simp add: set_update_job)
  have a: "\<exists>q \<in> set (jobs ?s1). job_id q = job_id r"
    unfolding js1 using r F by auto
  have b: "\<forall>q \<in> set (jobs ?s1). job_id q = job_id r \<longrightarrow> status q = ''failed'' \<and> message q = e"
    unfolding js1 using F by auto
  have c: "\<forall>q \<in> set (jobs s). job_id q \<noteq> job_id r \<longrightarrow> q \<in> set (jobs ?s1)"
    unfolding js1 by auto
  have d: "job_id r2 \<noteq> job_id r
       \<and> (\<exists>s2. poller_iteration NoFault ?s1 = (Some (job_id r2), s2)
             \<and> fst (job_poller [RaiseAt k e, NoFault] s) = [job_id r, job_id r2]
             \<and> (\<exists>q \<in> set (jobs s2). job_id q = job_id r2)
             \<and> (\<forall>q \<in> set (jobs s2). job_id q = job_id r2 \<longrightarrow> status q = ''completed''))"
    if sel2: "select_queued (jobs ?s1) = Some r2" for r2
  proof -
    have r2: "r2 \<in> set (jobs ?s1)" "status r2 = ''queued''"
      using select_queued_Some(1,2) [OF sel2] by auto
    have ne: "job_id r2 \<noteq> job_id r" using b r2 by auto
    obtain G where G: "\<forall>x. job_id (G x) = job_id x \<and> status (G x) = ''completed''"
      and it2: "poller_iteration NoFault ?s1
         = (Some (job_id r2), ?s1\<lparr>jobs := update_job (job_id r2) G (jobs ?s1)\<rparr>)"
      using poller_iteration_shape [OF sel2, of NoFault] by auto
    let ?s2 = "?s1\<lparr>jobs := update_job (job_id r2) G (jobs ?s1)\<rparr>"
    have js2: "set (jobs ?s2) = G ` {x \<in> set (jobs ?s1). job_id x = job_id r2}
        \<union> {x \<in> set (jobs ?s1). job_id x \<noteq> job_id r2}"
      by (simp add: set_update_job)
    have "\<exists>q \<in> set (jobs ?s2). job_id q = job_id r2"
      unfolding js2 using r2(1) G by auto
    moreover have "\<forall>q \<in> set (jobs ?s2). job_id q = job_id r2 \<longrightarrow> status q = ''completed''"
      unfolding js2 using G by auto
    moreover have "fst (job_poller [RaiseAt k e, NoFault] s) = [job_id r, job_id r2]"
      by (simp add: it it2)
    ultimately show ?thesis using ne it2 by blast
  qed
  show ?thesis using it a b c d by blast
qed

text \<open>
  The theorem on a table of two queued jobs, the first failing with \<^verbatim>\<open>boom\<close> in its
  third stage.
\<close>

theorem poller_contains_failure_witness:
  "\<exists>s1. poller_iteration (RaiseAt 3 ''boom'') (init_server\<lparr>jobs := [job1, job2]\<rparr>)
          = (Some (job_id job1), s1)
     \<and> (\<exists>q \<in> set (jobs s1). job_id q = job_id job1)
     \<and> (\<forall>q \<in> set (jobs s1). job_id q = job_id job1 \<longrightarrow> status q = ''failed'' \<and> message q = ''boom'')"
proof -
  have "(1 :: nat) \<le> 3" "(3 :: nat) \<le> 6" by simp_all
  from poller_contains_failure [OF select_job1 this, of "''boom''"] show ?thesis by blast
qed

lemma poller_after_failure_example:
  "fst (job_poller [RaiseAt 3 ''boom'', NoFault] (init_server\<lparr>jobs := [job1, job2]\<rparr>))
     = [''job-1'', ''job-2'']
   \<and> map status (jobs (snd (job_poller [RaiseAt 3 ''boom'', NoFault]
        (init_server\<lparr>jobs := [job1, job2]\<rparr>)))) = [''failed'', ''completed'']
   \<and> map message (jobs (snd (job_poller [RaiseAt 3 ''boom'', NoFault]
        (init_server\<lparr>jobs := [job1, job2]\<rparr>)))) = [''boom'', ''done'']"
  by (simp add: poller_iteration_def select_queued_def init_server_def job1_def job2_def
      background_process_def mark_processing_def update_job_def upt_rec str_nat.simps digit_char_def)

section \<open>The predictive timer\<close>

lemma sigmoid_below_cap: "0 < (x :: real) \<Longrightarrow> 0 < 95 / (1 + x) \<and> 95 / (1 + x) < 95"
  by (simp add: field_simps)

lemma predictive_progress_bounds:
  "0 < predictive_progress T t" "predictive_progress T t < 95"
proof -
  have "0 < (2.718 :: real) powr (- ((t / T) * 12 - 6))" by simp
  from sigmoid_below_cap [OF this]
  show "0 < predictive_progress T t" "predictive_progress T t < 95"
    unfolding predictive_progress_def Let_def by blast+
qed

text \<open>
  Claim C5. For \<open>0 < T\<close> and \<open>0 \<le> t < T\<close> the predictive value is below 95; a pass
  of the timer loop at elapsed time \<open>t\<close> emits nothing or one event with that value; and
  \<^verbatim>\<open>complete_separation\<close> emits one event with progress 100, whatever the time.
\<close>

theorem predictive_cap:
  assumes "0 < T" "0 \<le> t" "t < T"
  shows "predictive_progress T t < 95
     \<and> (\<forall>tm tr now. tm_estimated_time tm = T \<longrightarrow> now - tm_start tm = t \<longrightarrow>
           emitted (snd (update_progress now (tm, tr))) = emitted tr
           \<or> (\<exists>ev. emitted (snd (update_progress now (tm, tr))) = emitted tr @ [ev]
                  \<and> ev_progress ev = predictive_progress T t \<and> ev_progress ev < 95))
     \<and> (\<forall>now tr. \<exists>ev. emitted (complete_separation now tr) = emitted tr @ [ev]
           \<and> ev_progress ev = 100)"
proof -
  have p: "0 < predictive_progress T t" "predictive_progress T t < 95"
    by (rule predictive_progress_bounds)+
  then have clamp: "min 100 (max 0 (predictive_progress T t)) = predictive_progress T t" by simp
  have "emitted (snd (update_progress now (tm, tr))) = emitted tr
       \<or> (\<exists>ev. emitted (snd (update_progress now (tm, tr))) = emitted tr @ [ev]
              \<and> ev_progress ev = predictive_progress T t \<and> ev_progress ev < 95)"
    if "tm_estimated_time tm = T" "now - tm_start tm = t" for tm tr now
    using that p(2) clamp by (simp add: update_progress_def emit_progress_def Let_def)
  moreover have "\<exists>ev. emitted (complete_separation now tr) = emitted tr @ [ev]
      \<and> ev_progress ev = 100" for now tr
    by (simp add: complete_separation_def emit_progress_def Let_def)
  ultimately show ?thesis using p(2) by blast
qed

text \<open>
  The theorem at \<open>T = 10\<close>, \<open>t = 5\<close>.
\<close>

theorem predictive_cap_witness:
  "predictive_progress 10 5 < 95
   \<and> (\<exists>ev. emitted (complete_separation 7 tracker0) = emitted tracker0 @ [ev]
         \<and> ev_progress ev = 100)"
proof -
  have "(0 :: real) < 10" "(0 :: real) \<le> 5" "(5 :: real) < 10" by simp_all
  from predictive_cap [OF this] show ?thesis by blast
qed

text \<open>Before the estimate is reached the value stays below 94.8, a margin that the
  rounding of floating-point arithmetic does not use up.\<close>

lemma predictive_margin:
  assumes "0 < T" "t < T"
  shows "predictive_progress T t < 94.8"
proof -
  let ?x = "- ((t / T) * 12 - 6)"
  have "t / T < 1" using assms by simp
  then have "(t / T) * 12 < 1 * 12" by (intro mult_strict_right_mono) simp_all
  then have x: "- 6 < ?x" by linarith
  have "(2.718 :: real) powr (- 6) < 2.718 powr ?x"
    using x by (intro powr_less_mono) simp_all
  moreover have "(2.718 :: real) powr (- 6) = inverse (2.718 powr 6)"
    by (rule powr_minus)
  moreover have "(2.718 :: real) powr 6 = 2.718 ^ 6"
    by (rule powr_numeral) simp
  ultimately have low: "inverse (2.718 ^ 6) < (2.718 :: real) powr ?x" by (simp only:)
  have "(1 / 404 :: real) < inverse (2.718 ^ 6)" by (simp add: field_simps)
  then have p: "1 / 404 < (2.718 :: real) powr ?x" using low by (rule less_trans)
  have "95 / (1 + y) < 94.8" if "1 / 404 < y" for y :: real
    using that by (simp add: field_simps)
  from this [OF p] show ?thesis unfolding predictive_progress_def Let_def .
qed

lemma predictive_progress_half: "predictive_progress 10 5 = 47.5"
  by (simp add: predictive_progress_def)

text \<open>
  Claim C6, as amended. A pass of the loop that finds the elapsed time at or beyond the
  estimate ends the thread and emits nothing; a thread that has ended never emits again.
  The calls that report the end of the stage, \<^verbatim>\<open>complete_separation\<close> and
  \<^verbatim>\<open>emit_error\<close>, leave the timer as it is.
\<close>

theorem timer_stops_at_estimate_only:
  "(tm_alive tm \<and> tm_estimated_time tm \<le> now - tm_start tm \<longrightarrow>
      update_progress now (tm, tr) = (tm\<lparr>tm_alive := False\<rparr>, tr))
   \<and> (\<not> tm_alive tm \<longrightarrow> (\<forall>nows. stage_run (map Tick nows) (tm, tr) = (tm, tr)))
   \<and> fst (stage_step (Complete now) (tm, tr)) = tm
   \<and> fst (stage_step (Failed e) (tm, tr)) = tm"
proof -
  have "stage_run (map Tick nows) (tm, tr) = (tm, tr)" if "\<not> tm_alive tm" for nows
    using that by (induction nows) (simp_all add: update_progress_def)
  then show ?thesis by (simp add: update_progress_def)
qed

text \<open>
  The theorem for a timer with an estimate of ten seconds, read at ten seconds and after.
\<close>

theorem timer_stops_at_estimate_only_witness:
  "update_progress 10 (start_predictive_progress ''separation'' 10 0, tracker0)
     = ((start_predictive_progress ''separation'' 10 0)\<lparr>tm_alive := False\<rparr>, tracker0)
   \<and> stage_run (map Tick [11, 12])
        ((start_predictive_progress ''separation'' 10 0)\<lparr>tm_alive := False\<rparr>, tracker0)
     = ((start_predictive_progress ''separation'' 10 0)\<lparr>tm_alive := False\<rparr>, tracker0)"
proof -
  let ?tm = "start_predictive_progress ''separation'' 10 0"
  have 1: "tm_alive ?tm \<and> tm_estimated_time ?tm \<le> 10 - tm_start ?tm"
    by (simp add: start_predictive_progress_def)
  have 2: "\<not> tm_alive (?tm\<lparr>tm_alive := False\<rparr>)" by simp
  show ?thesis
    using timer_stops_at_estimate_only [of ?tm 10 tracker0]
      timer_stops_at_estimate_only [of "?tm\<lparr>tm_alive := False\<rparr>" 10 tracker0] 1 2
    by blast
qed

text \<open>
  Claim C6 as stated fails: the stage is reported complete after one second, and the
  timer, still alive, emits a predictive update of 47.5 percent four seconds later.
\<close>

theorem stale_update_after_complete_counterexample:
  "map ev_progress (emitted (snd (stage_run [Complete 1, Tick 5]
       (start_separation_progress 0 tracker0)))) = [0, 100, 47.5]
   \<and> map ev_message (emitted (snd (stage_run [Complete 1, Tick 5]
       (start_separation_progress 0 tracker0))))
     = [Text ''Initializing audio separation...'', SeparationComplete 1,
        Predicted ''separation'' 5 5]
   \<and> tm_alive (fst (stage_run [Complete 1, Tick 5] (start_separation_progress 0 tracker0)))"
  by (simp add: start_separation_progress_def tracker0_def start_predictive_progress_def
      complete_separation_def emit_progress_def update_progress_def Let_def
      predictive_progress_def py_int_def)

section \<open>Songs: update and delete\<close>

lemma songs_background_process [simp]: "songs (background_process jid fid mdl flt s) = songs s"
  by (simp add: background_process_def Let_def split: prod.splits option.splits)

lemma songs_poller_iteration [simp]: "songs (snd (poller_iteration flt s)) = songs s"
  by (simp add: poller_iteration_def split: option.splits)

lemma songs_start_process [simp]:
  "songs (snd (start_process mdl fid new_id now redis_url rq_installed enqueue_raises s)) = songs s"
  by (simp add: start_process_def Let_def)

lemma songs_create_upload [simp]: "songs (snd (create_upload upload_id meta_text s)) = songs s"
  by (simp add: create_upload_def split: option.splits entry.splits)

lemma songs_upload_chunk [simp]: "songs (snd (upload_chunk upload_id hdr data s)) = songs s"
  by (simp add: upload_chunk_def split: option.splits entry.splits chunk_header.splits)












text \<open>
  Claim C10. \<^verbatim>\<open>DELETE\<close> on a missing song answers 204 and changes nothing; on a song
  whose backing file exists it removes the file and the row; on a song whose backing file
  is already gone it removes the row; and it never answers 404.
\<close>

theorem song_delete_idempotent:
  "(songs s fid = None \<longrightarrow> song_delete fid s = (Return Empty 204, s))
   \<and> (\<forall>r fn b. songs s fid = Some r \<longrightarrow> filename r = Some fn \<longrightarrow> fn \<noteq> [] \<longrightarrow>
          uploads s fn = Some (File b) \<longrightarrow>
          song_delete fid s
            = (Return Empty 204,
               s\<lparr>uploads := (uploads s)(fn := None), songs := (songs s)(fid := None)\<rparr>))
   \<and> (\<forall>r fn. songs s fid = Some r \<longrightarrow> filename r = Some fn \<longrightarrow> uploads s fn = None \<longrightarrow>
          song_delete fid s = (Return Empty 204, s\<lparr>songs := (songs s)(fid := None)\<rparr>))
   \<and> (\<forall>b. fst (song_delete fid s) \<noteq> Return b 404)"
proof -
  have "song_delete fid s = (Return Empty 204, s)" if "songs s fid = None"
  proof -
    have "(songs s)(fid := None) = songs s" using that by (simp add: fun_upd_idem)
    then show ?thesis using that by (simp add: song_delete_def)
  qed
  moreover have "\<forall>b. fst (song_delete fid s) \<noteq> Return b 404"
    by (auto simp: song_delete_def Let_def split: option.splits entry.splits sum.splits)
  ultimately show ?thesis by (auto simp: song_delete_def)
qed

text \<open>
  The theorem for the uploaded song, deleted twice.
\<close>

theorem song_delete_idempotent_witness:
  "song_delete ''song-1'' uploaded_song
     = (Return Empty 204,
        uploaded_song\<lparr>uploads := (uploads uploaded_song)(''song-1.wav'' := None),
          songs := (songs uploaded_song)(''song-1'' := None)\<rparr>)
   \<and> song_delete ''song-1'' (snd (song_delete ''song-1'' uploaded_song))
     = (Return Empty 204, snd (song_delete ''song-1'' uploaded_song))"
proof -
  have 1: "songs uploaded_song ''song-1'' = Some \<lparr>song_id = ''song-1'', title = JNull,
      artist = JNull, filename = Some ''song-1.wav'', duration = None, metadata = Some Map.empty,
      song_created_at = 0\<rparr>"
    and 2: "uploads uploaded_song ''song-1.wav'' = Some (File [1, 2, 3])"
    by (simp_all add: uploaded_song_state)
  have first: "song_delete ''song-1'' uploaded_song
     = (Return Empty 204,
        uploaded_song\<lparr>uploads := (uploads uploaded_song)(''song-1.wav'' := None),
          songs := (songs uploaded_song)(''song-1'' := None)\<rparr>)"
    using song_delete_idempotent [of uploaded_song "''song-1''"] 1 2 by simp
  have "songs (snd (song_delete ''song-1'' uploaded_song)) ''song-1'' = None"
    by (simp add: first)
  then show ?thesis
    using first song_delete_idempotent [of "snd (song_delete ''song-1'' uploaded_song)" "''song-1''"]
    by blast
qed

end
